theory Spec2Isabelle
  imports Complex_Main "HOL-Library.Multiset"
begin

section \<open>Numeric model\<close>

text \<open>
  The solvers compute with binary floating point (NumPy \<open>float64\<close>) and, in \<open>main.py\<close>,
  with \<open>Decimal\<close> at 28 digits. Both are modelled by the real numbers: rounding and
  overflow are outside the model. What is kept is the partiality of division. A NumPy
  division by zero does not raise: it yields \<open>inf\<close> or \<open>nan\<close> (with a warning), and every
  later addition, multiplication or division by a finite non-zero number keeps the value
  non-finite. A cell is therefore a \<open>real option\<close>, with \<open>None\<close> standing for a non-finite
  value. A division of two plain Python numbers by zero raises \<open>ZeroDivisionError\<close>.

  What the real numbers do not show:
  \<^item> the order of a floating-point sum: two sums of the same terms taken in another
    order are equal here and can differ in the last bits in the code;
  \<^item> overflow and underflow: for a Python float, \<open>L_sr**2\<close> raises \<open>OverflowError\<close> beyond
    about \<open>1.3e154\<close> and is \<open>0.0\<close> below about \<open>1e-162\<close>, and a NumPy value can become
    \<open>inf\<close>, \<open>nan\<close> or \<open>0.0\<close> at such magnitudes;
  \<^item> the rounding of \<open>Decimal\<close> division: where \<open>l / N\<close> has no exact 28-digit value, the
    unbounded source loops of \<open>main.py\<close> can run once more than in exact arithmetic.
  The theorems below say which quantities the code computes, in exact arithmetic.
\<close>

type_synonym npfloat = "real option"

datatype py_error = ValueError | ZeroDivisionError | DecimalDivisionByZero | DecimalInvalidOperation | IndexError

definition py_bind :: "py_error + 'a \<Rightarrow> ('a \<Rightarrow> py_error + 'b) \<Rightarrow> py_error + 'b" where
  "py_bind m f = (case m of Inl e \<Rightarrow> Inl e | Inr v \<Rightarrow> f v)"

definition py_truediv :: "real \<Rightarrow> real \<Rightarrow> py_error + real" where
  "py_truediv a b = (if b = 0 then Inl ZeroDivisionError else Inr (a / b))"

definition np_divide :: "npfloat \<Rightarrow> npfloat \<Rightarrow> npfloat" where
  "np_divide a b =
     (case a of None \<Rightarrow> None
      | Some u \<Rightarrow> (case b of None \<Rightarrow> None
                   | Some v \<Rightarrow> if v = 0 then None else Some (u / v)))"

definition np_multiply :: "npfloat \<Rightarrow> npfloat \<Rightarrow> npfloat" where
  "np_multiply a b =
     (case a of None \<Rightarrow> None
      | Some u \<Rightarrow> (case b of None \<Rightarrow> None | Some v \<Rightarrow> Some (u * v)))"

definition np_add :: "npfloat \<Rightarrow> npfloat \<Rightarrow> npfloat" where
  "np_add a b =
     (case a of None \<Rightarrow> None
      | Some u \<Rightarrow> (case b of None \<Rightarrow> None | Some v \<Rightarrow> Some (u + v)))"

definition np_square :: "npfloat \<Rightarrow> npfloat" where
  "np_square a = (case a of None \<Rightarrow> None | Some u \<Rightarrow> Some (u ^ 2))"

section \<open>The NumPy operations the solvers use\<close>

text \<open>
  \<open>np.linspace(start, stop, num)\<close> with the default \<open>endpoint=True\<close>: a negative \<open>num\<close>
  raises \<open>ValueError\<close>; otherwise the samples are \<open>arange(num) * step + start\<close> with
  \<open>step = (stop - start) / (num - 1)\<close> (for \<open>num = 1\<close> the single sample is \<open>start\<close>), and
  for \<open>num > 1\<close> the last sample is overwritten by \<open>stop\<close>.
\<close>

definition linspace_points :: "real \<Rightarrow> real \<Rightarrow> int \<Rightarrow> real list" where
  "linspace_points start stop num =
     (let n = nat num;
          dv = num - 1;
          delta = stop - start;
          y = map real [0..<n];
          y = (if 0 < dv then map (\<lambda>v. v * (delta / real_of_int dv)) y
               else map (\<lambda>v. v * delta) y);
          y = map (\<lambda>v. v + start) y
      in if 1 < num then y[n - 1 := stop] else y)"

definition linspace :: "real \<Rightarrow> real \<Rightarrow> int \<Rightarrow> py_error + real list" where
  "linspace start stop num =
     (if num < 0 then Inl ValueError else Inr (linspace_points start stop num))"

text \<open>
  \<open>np.meshgrid(x, y)\<close> with the default \<open>indexing='xy'\<close>: both results have
  \<open>len(y)\<close> rows and \<open>len(x)\<close> columns, \<open>X[a][b] = x[b]\<close> and \<open>Y[a][b] = y[a]\<close>.
\<close>

definition meshgrid :: "real list \<Rightarrow> real list \<Rightarrow> real list list \<times> real list list" where
  "meshgrid xs ys = (replicate (length ys) xs, map (\<lambda>v. replicate (length xs) v) ys)"

definition zeros :: "nat \<Rightarrow> nat \<Rightarrow> npfloat list list" where
  "zeros n m = replicate n (replicate m (Some 0))"

text \<open>Elementwise operations on two-dimensional arrays, and Python's \<open>range\<close>.\<close>

definition arr_map :: "('a \<Rightarrow> 'b) \<Rightarrow> 'a list list \<Rightarrow> 'b list list" where
  "arr_map f A = map (map f) A"

definition arr_zip :: "('a \<Rightarrow> 'b \<Rightarrow> 'c) \<Rightarrow> 'a list list \<Rightarrow> 'b list list \<Rightarrow> 'c list list" where
  "arr_zip f A B = map2 (map2 f) A B"

definition py_range :: "int \<Rightarrow> nat list" where
  "py_range n = [0..<nat n]"

definition has_shape :: "nat \<Rightarrow> nat \<Rightarrow> 'a list list \<Rightarrow> bool" where
  "has_shape n m A \<longleftrightarrow> length A = n \<and> list_all (\<lambda>row. length row = m) A"

text \<open>
  The receiver grid. The three NumPy variants build it by the same two \<open>linspace\<close>
  calls and a \<open>meshgrid\<close> (\<open>main2.py\<close> lines 14 to 16, \<open>interactive_app.py\<close> lines 54
  to 56, \<open>incupsulation.py\<close> lines 190 to 192).
\<close>

definition receiver_grid ::
  "real \<Rightarrow> real \<Rightarrow> int \<Rightarrow> py_error + (real list list \<times> real list list)" where
  "receiver_grid l_r h_r match =
     py_bind (linspace 0 l_r match) (\<lambda>x_r.
     py_bind (linspace 0 h_r match) (\<lambda>y_r.
     Inr (meshgrid x_r y_r)))"

section \<open>main2.py: the vectorized loop\<close>

text \<open>
  \<open>vectorized_step\<close> is the body of the double loop of \<open>calculate_irradiance_vectorized\<close>
  (lines 32 to 36): the array added to \<open>result\<close> for the source sample
  \<open>(x_s[i], y_s[j])\<close>. The unused \<open>X_s, Y_s = np.meshgrid(x_s, y_s)\<close> is left out.
\<close>

definition vectorized_step ::
  "real list list \<Rightarrow> real list list \<Rightarrow> real \<Rightarrow> real \<Rightarrow> real \<Rightarrow> real \<Rightarrow> npfloat list list" where
  "vectorized_step X_r Y_r x_s_i y_s_j L_sr I_i =
     (let dx = arr_map (\<lambda>v. v - x_s_i) X_r;
          dy = arr_map (\<lambda>v. v - y_s_j) Y_r;
          L_vect = arr_map sqrt
                     (arr_map (\<lambda>v. v + L_sr ^ 2)
                        (arr_zip (+) (arr_map (\<lambda>v. v ^ 2) dx) (arr_map (\<lambda>v. v ^ 2) dy)));
          cos_a = arr_map (\<lambda>v. np_divide (Some L_sr) (Some v)) L_vect
      in arr_map (\<lambda>c. np_divide (np_multiply (Some I_i) (np_square c)) (Some (L_sr ^ 2))) cos_a)"

definition calculate_irradiance_vectorized ::
  "real \<Rightarrow> real \<Rightarrow> real \<Rightarrow> real \<Rightarrow> real \<Rightarrow> real \<Rightarrow> real \<Rightarrow> real \<Rightarrow> int
     \<Rightarrow> py_error + npfloat list list" where
  "calculate_irradiance_vectorized p l_r h_r x y R l_s h_s accuracy =
     (let L_sr = R; match = accuracy in
      py_bind (receiver_grid l_r h_r match) (\<lambda>(X_r, Y_r).
      py_bind (linspace 0 l_s match) (\<lambda>x_s0.
      py_bind (linspace 0 h_s match) (\<lambda>y_s0.
      let x_s = map (\<lambda>v. v + x) x_s0;
          y_s = map (\<lambda>v. v + y) y_s0;
          P_source = p in
      py_bind (py_truediv P_source (pi * real_of_int (match ^ 2))) (\<lambda>I_i.
      let result = zeros (nat match) (nat match);
          result = fold (\<lambda>i result.
                     fold (\<lambda>j result.
                       arr_zip np_add result
                         (vectorized_step X_r Y_r (x_s ! i) (y_s ! j) L_sr I_i))
                       (py_range match) result)
                     (py_range match) result
      in Inr (arr_map (\<lambda>v. np_divide v (Some 0.005)) result))))))"

section \<open>interactive_app.py: the interactive vectorized loop\<close>

text \<open>
  The system parameters of class \<open>InteractiveIrradianceApp\<close> (the fields set in
  \<open>__init__\<close> of both \<open>interactive_app.py\<close> and \<open>incupsulation.py\<close>); the widget and
  figure fields play no part in the computation. The fields hold plain Python numbers.
\<close>

record InteractiveIrradianceApp =
  self_p :: real
  self_l_r :: real
  self_h_r :: real
  self_x :: real
  self_y :: real
  self_R :: real
  self_l_s :: real
  self_h_s :: real
  self_accuracy :: int


section \<open>incupsulation.py: the JIT-parallel kernel and the extended model\<close>

text \<open>
  \<open>optimized_step\<close> is the body of the double loop of \<open>calculate_irradiance_optimized\<close>
  (lines 64 to 84): the array \<open>irradiance\<close> of one source sample. The \<open>prange\<close> loop is a
  sum reduction into \<open>result\<close>; over the reals its order does not matter, and it is
  modelled in index order.
\<close>

definition optimized_step ::
  "real list list \<Rightarrow> real list list \<Rightarrow> real \<Rightarrow> real \<Rightarrow> real \<Rightarrow> real \<Rightarrow> npfloat list list" where
  "optimized_step X_r Y_r x_s y_s L_sr I_i =
     (let dx = arr_map (\<lambda>v. v - x_s) X_r;
          dy = arr_map (\<lambda>v. v - y_s) Y_r;
          distance_sq = arr_map (\<lambda>v. v + L_sr ^ 2)
                          (arr_zip (+) (arr_map (\<lambda>v. v ^ 2) dx) (arr_map (\<lambda>v. v ^ 2) dy));
          cos_alpha = arr_map (\<lambda>d. np_divide (Some L_sr) (Some (sqrt d))) distance_sq;
          irradiance = arr_zip (\<lambda>c d. np_divide (np_multiply (Some I_i) (np_square c)) (Some d))
                         cos_alpha distance_sq
      in irradiance)"

definition calculate_irradiance_optimized ::
  "real list list \<Rightarrow> real list list \<Rightarrow> real list \<Rightarrow> real list \<Rightarrow> real \<Rightarrow> real
     \<Rightarrow> npfloat list list" where
  "calculate_irradiance_optimized X_r Y_r x_s_points y_s_points L_sr I_i =
     (let match = length X_r;
          result = zeros match match;
          num_x_s = length x_s_points;
          num_y_s = length y_s_points
      in fold (\<lambda>i result.
           fold (\<lambda>j result.
             let x_s = x_s_points ! i;
                 y_s = y_s_points ! j
             in arr_zip np_add result (optimized_step X_r Y_r x_s y_s L_sr I_i))
             [0..<num_y_s] result)
           [0..<num_x_s] result)"

definition source_points_factor :: "int \<Rightarrow> int" where
  "source_points_factor match = max 2 (min 10 (match div 10))"

definition calculate_irradiance_extended_model ::
  "InteractiveIrradianceApp \<Rightarrow> py_error + npfloat list list" where
  "calculate_irradiance_extended_model self =
     (let L_sr = self_R self; match = self_accuracy self in
      py_bind (receiver_grid (self_l_r self) (self_h_r self) match) (\<lambda>(X_r, Y_r).
      py_bind (linspace (- self_l_s self / 2) (self_l_s self / 2) (source_points_factor match))
        (\<lambda>x_s0.
      py_bind (linspace (- self_h_s self / 2) (self_h_s self / 2) (source_points_factor match))
        (\<lambda>y_s0.
      let x_s_points = map (\<lambda>v. v + self_x self) x_s0;
          y_s_points = map (\<lambda>v. v + self_y self) y_s0;
          num_source_points = length x_s_points * length y_s_points in
      py_bind (py_truediv (self_p self) (real num_source_points)) (\<lambda>power_per_point.
      let I_i = power_per_point / pi;
          result = calculate_irradiance_optimized X_r Y_r x_s_points y_s_points L_sr I_i
      in if L_sr < max (self_l_s self) (self_h_s self) * 10
         then py_bind (py_truediv (max (self_l_s self) (self_h_s self)) L_sr) (\<lambda>q.
                let size_correction = 1.0 + 0.1 * q
                in Inr (arr_map (\<lambda>v. np_multiply v (Some size_correction)) result))
         else Inr result)))))"

section \<open>main.py: the task-structured variant\<close>

text \<open>
  \<open>ps_from_point\<close> returns a NumPy scalar, so its two divisions follow NumPy. The
  coroutines are pure; a task is modelled by the value it yields when awaited.
\<close>

definition ps_from_point ::
  "real \<Rightarrow> real \<Rightarrow> real \<Rightarrow> real \<Rightarrow> real \<Rightarrow> real \<Rightarrow> real \<Rightarrow> real \<Rightarrow> npfloat" where
  "ps_from_point x y xs ys x_pos y_pos L_sr I_i =
     (let xs_actual = xs + x_pos;
          ys_actual = ys + y_pos;
          dx = xs_actual - x;
          dy = ys_actual - y;
          L_vect = sqrt (dx ^ 2 + dy ^ 2 + L_sr ^ 2);
          cos_a = np_divide (Some L_sr) (Some L_vect)
      in np_divide (np_multiply (Some I_i) (np_square cos_a)) (Some (L_sr ^ 2)))"






text \<open>
  The two loops of \<open>ps_for_all\<close> that collect the tasks. Each entry of \<open>tasks_list\<close> is
  the task of one receiver point with its indices; the loops are parametric in the task
  so that the receiver coordinates they visit can be read off.
\<close>

function ps_for_all_ys ::
  "(real \<Rightarrow> 'a) \<Rightarrow> real \<Rightarrow> real \<Rightarrow> int \<Rightarrow> int \<Rightarrow> int \<Rightarrow> real \<Rightarrow> ('a \<times> int \<times> int) list
     \<Rightarrow> ('a \<times> int \<times> int) list" where
  "ps_for_all_ys task h_r y_step_r match xi yi y tasks_list =
     (if y < h_r \<and> yi < match
      then ps_for_all_ys task h_r y_step_r match xi (yi + 1) (y + y_step_r)
             (tasks_list @ [(task y, xi, yi)])
      else tasks_list)"
  by pat_completeness auto
termination
  by (relation "measure (\<lambda>(task, h_r, y_step_r, match, xi, yi, y, tasks_list). nat (match - yi))")
     auto

function ps_for_all_xs ::
  "(real \<Rightarrow> real \<Rightarrow> 'a) \<Rightarrow> real \<Rightarrow> real \<Rightarrow> real \<Rightarrow> real \<Rightarrow> int \<Rightarrow> int \<Rightarrow> real
     \<Rightarrow> ('a \<times> int \<times> int) list \<Rightarrow> ('a \<times> int \<times> int) list" where
  "ps_for_all_xs task l_r h_r x_step_r y_step_r match xi x tasks_list =
     (if x < l_r \<and> xi < match
      then ps_for_all_xs task l_r h_r x_step_r y_step_r match (xi + 1) (x + x_step_r)
             (ps_for_all_ys (task x) h_r y_step_r match xi 0 0 tasks_list)
      else tasks_list)"
  by pat_completeness auto
termination
  by (relation "measure (\<lambda>(task, l_r, h_r, x_step_r, y_step_r, match, xi, x, tasks_list).
                  nat (match - xi))")
     auto




section \<open>Arrays, folds and sums\<close>

lemma has_shape_zeros: "has_shape n m (zeros n m)"
  by (simp add: has_shape_def zeros_def list_all_iff)

lemma has_shape_arr_map: "has_shape n m A \<Longrightarrow> has_shape n m (arr_map f A)"
  by (simp add: has_shape_def arr_map_def list_all_iff)

lemma has_shape_arr_zip:
  "has_shape n m A \<Longrightarrow> has_shape n m B \<Longrightarrow> has_shape n m (arr_zip f A B)"
  by (simp add: has_shape_def arr_zip_def list_all_length)

lemma has_shape_meshgrid:
  "has_shape (length ys) (length xs) (fst (meshgrid xs ys))"
  "has_shape (length ys) (length xs) (snd (meshgrid xs ys))"
  by (simp_all add: has_shape_def meshgrid_def list_all_iff)

lemma arr_map_nth:
  "has_shape n m A \<Longrightarrow> a < n \<Longrightarrow> b < m \<Longrightarrow> arr_map f A ! a ! b = f (A ! a ! b)"
  by (simp add: has_shape_def arr_map_def list_all_length)

lemma arr_zip_nth:
  "has_shape n m A \<Longrightarrow> has_shape n m B \<Longrightarrow> a < n \<Longrightarrow> b < m \<Longrightarrow>
   arr_zip f A B ! a ! b = f (A ! a ! b) (B ! a ! b)"
  by (simp add: has_shape_def arr_zip_def list_all_length)

lemma zeros_nth: "a < n \<Longrightarrow> b < m \<Longrightarrow> zeros n m ! a ! b = Some 0"
  by (simp add: zeros_def)

lemma meshgrid_nth:
  "a < length ys \<Longrightarrow> b < length xs \<Longrightarrow> fst (meshgrid xs ys) ! a ! b = xs ! b"
  "a < length ys \<Longrightarrow> b < length xs \<Longrightarrow> snd (meshgrid xs ys) ! a ! b = ys ! a"
  by (simp_all add: meshgrid_def)

lemma fold_add_shape:
  "has_shape n m Z \<Longrightarrow> (\<And>s. has_shape n m (C s)) \<Longrightarrow>
   has_shape n m (fold (\<lambda>s res. arr_zip np_add res (C s)) srcs Z)"
  by (induction srcs arbitrary: Z) (simp_all add: has_shape_arr_zip)

lemma fold_add_cell:
  "has_shape n m Z \<Longrightarrow> (\<And>s. has_shape n m (C s)) \<Longrightarrow> a < n \<Longrightarrow> b < m \<Longrightarrow>
   fold (\<lambda>s res. arr_zip np_add res (C s)) srcs Z ! a ! b
     = fold (\<lambda>s v. np_add v (C s ! a ! b)) srcs (Z ! a ! b)"
  by (induction srcs arbitrary: Z) (simp_all add: has_shape_arr_zip arr_zip_nth)

lemma fold2_add_shape:
  "has_shape n m Z \<Longrightarrow> (\<And>i j. has_shape n m (C i j)) \<Longrightarrow>
   has_shape n m (fold (\<lambda>i res. fold (\<lambda>j res. arr_zip np_add res (C i j)) js res) is Z)"
  by (induction "is" arbitrary: Z) (simp_all add: fold_add_shape)

lemma fold2_add_cell:
  "has_shape n m Z \<Longrightarrow> (\<And>i j. has_shape n m (C i j)) \<Longrightarrow> a < n \<Longrightarrow> b < m \<Longrightarrow>
   fold (\<lambda>i res. fold (\<lambda>j res. arr_zip np_add res (C i j)) js res) is Z ! a ! b
     = fold (\<lambda>i v. fold (\<lambda>j v. np_add v (C i j ! a ! b)) js v) is (Z ! a ! b)"
  by (induction "is" arbitrary: Z) (simp_all add: fold_add_shape fold_add_cell)

lemma fold_np_add_Some:
  "fold (\<lambda>s v. np_add v (Some (g s))) srcs (Some u) = Some (u + sum_list (map g srcs))"
  by (induction srcs arbitrary: u) (simp_all add: np_add_def add.assoc)

lemma fold_np_add_Some_upt:
  "fold (\<lambda>s v. np_add v (Some (g s))) [0..<n] (Some u) = Some (u + (\<Sum>s<n. g s))"
  by (simp add: fold_np_add_Some interv_sum_list_conv_sum_set_nat atLeast0LessThan)

lemma fold2_np_add_Some_upt:
  "fold (\<lambda>i v. fold (\<lambda>j v. np_add v (Some (g i j))) [0..<m] v) [0..<n] (Some u)
     = Some (u + (\<Sum>i<n. \<Sum>j<m. g i j))"
proof -
  have "fold (\<lambda>i v. fold (\<lambda>j v. np_add v (Some (g i j))) [0..<m] v) is (Some u)
     = Some (u + sum_list (map (\<lambda>i. \<Sum>j<m. g i j) is))" for "is" u
    by (induction "is" arbitrary: u) (simp_all add: fold_np_add_Some_upt add.assoc)
  then show ?thesis
    by (simp add: interv_sum_list_conv_sum_set_nat atLeast0LessThan)
qed

lemma linspace_points_length: "length (linspace_points a b n) = nat n"
  by (simp add: linspace_points_def Let_def)

lemma linspace_points_nth:
  assumes "2 \<le> n" "i < nat n"
  shows "linspace_points a b n ! i = a + real i * ((b - a) / (real_of_int n - 1))"
proof (cases "i = nat n - 1")
  case True
  have "real (nat n - 1) = real_of_int n - 1" using assms by (simp add: of_nat_diff)
  then have "a + real (nat n - 1) * ((b - a) / (real_of_int n - 1)) = b"
    using assms by (simp add: field_simps)
  with True assms show ?thesis
    by (simp add: linspace_points_def Let_def)
next
  case False
  with assms show ?thesis
    by (simp add: linspace_points_def Let_def algebra_simps)
qed

lemma linspace_points_one: "linspace_points a b 1 = [a]"
  by (simp add: linspace_points_def Let_def)

lemma sq_sum_pos: "L \<noteq> 0 \<Longrightarrow> 0 < u\<^sup>2 + v\<^sup>2 + (L::real)\<^sup>2"
  by (simp add: add_nonneg_pos)

lemma has_shape_vectorized_step:
  "has_shape n m X \<Longrightarrow> has_shape n m Y \<Longrightarrow> has_shape n m (vectorized_step X Y xs ys L I)"
  by (simp add: vectorized_step_def Let_def has_shape_arr_map has_shape_arr_zip)

lemma vectorized_step_nth:
  assumes "has_shape n m X" "has_shape n m Y" "a < n" "b < m"
  shows "vectorized_step X Y xs ys L I ! a ! b
           = np_divide (np_multiply (Some I) (np_square (np_divide (Some L)
               (Some (sqrt ((X ! a ! b - xs)\<^sup>2 + (Y ! a ! b - ys)\<^sup>2 + L\<^sup>2))))))
               (Some (L\<^sup>2))"
  using assms
  by (simp add: vectorized_step_def Let_def has_shape_def arr_map_def arr_zip_def
                list_all_length)

lemma vectorized_step_cell:
  assumes "has_shape n m X" "has_shape n m Y" "a < n" "b < m" "L \<noteq> 0"
  shows "vectorized_step X Y xs ys L I ! a ! b
           = Some (I * (L / sqrt ((X ! a ! b - xs)\<^sup>2 + (Y ! a ! b - ys)\<^sup>2 + L\<^sup>2))\<^sup>2 / L\<^sup>2)"
proof -
  have "sqrt ((X ! a ! b - xs)\<^sup>2 + (Y ! a ! b - ys)\<^sup>2 + L\<^sup>2) \<noteq> 0"
    using sq_sum_pos [OF assms(5), of "X ! a ! b - xs" "Y ! a ! b - ys"] by simp
  then show ?thesis
    using assms
    by (simp add: vectorized_step_nth np_divide_def np_multiply_def np_square_def)
qed

lemma vectorized_loop_cell:
  assumes "has_shape n m X" "has_shape n m Y" "a < n" "b < m" "L \<noteq> 0"
  shows "fold (\<lambda>i result. fold (\<lambda>j result.
             arr_zip np_add result (vectorized_step X Y (f i j) (g i j) L I))
             [0..<k] result) [0..<k] (zeros n m) ! a ! b
         = Some (\<Sum>i<k. \<Sum>j<k.
             I * (L / sqrt ((X ! a ! b - f i j)\<^sup>2 + (Y ! a ! b - g i j)\<^sup>2 + L\<^sup>2))\<^sup>2 / L\<^sup>2)"
proof -
  have sh: "\<And>i j. has_shape n m (vectorized_step X Y (f i j) (g i j) L I)"
    using assms(1,2) by (rule has_shape_vectorized_step)
  have "fold (\<lambda>i result. fold (\<lambda>j result.
             arr_zip np_add result (vectorized_step X Y (f i j) (g i j) L I))
             [0..<k] result) [0..<k] (zeros n m) ! a ! b
        = fold (\<lambda>i v. fold (\<lambda>j v.
             np_add v (vectorized_step X Y (f i j) (g i j) L I ! a ! b)) [0..<k] v) [0..<k]
             (zeros n m ! a ! b)"
    using has_shape_zeros sh assms(3,4) by (rule fold2_add_cell)
  also have "\<dots> = fold (\<lambda>i v. fold (\<lambda>j v. np_add v (Some
             (I * (L / sqrt ((X ! a ! b - f i j)\<^sup>2 + (Y ! a ! b - g i j)\<^sup>2 + L\<^sup>2))\<^sup>2 / L\<^sup>2)))
             [0..<k] v) [0..<k] (Some 0)"
    using assms by (simp add: vectorized_step_cell zeros_nth)
  finally show ?thesis
    by (simp add: fold2_np_add_Some_upt)
qed

lemma vectorized_loop_shape:
  assumes "has_shape n m X" "has_shape n m Y"
  shows "has_shape n m (fold (\<lambda>i result. fold (\<lambda>j result.
             arr_zip np_add result (vectorized_step X Y (f i j) (g i j) L I))
             js result) is (zeros n m))"
  using has_shape_zeros has_shape_vectorized_step [OF assms]
  by (rule fold2_add_shape)

lemma calculate_irradiance_vectorized_unfold:
  assumes "0 < N"
  shows "calculate_irradiance_vectorized p l_r h_r x y L l_s h_s N
         = Inr (arr_map (\<lambda>v. np_divide v (Some 0.005))
             (fold (\<lambda>i result. fold (\<lambda>j result.
                arr_zip np_add result
                  (vectorized_step (fst (meshgrid (linspace_points 0 l_r N) (linspace_points 0 h_r N)))
                     (snd (meshgrid (linspace_points 0 l_r N) (linspace_points 0 h_r N)))
                     (map (\<lambda>v. v + x) (linspace_points 0 l_s N) ! i)
                     (map (\<lambda>v. v + y) (linspace_points 0 h_s N) ! j) L
                     (p / (pi * (real_of_int N)\<^sup>2))))
                [0..<nat N] result) [0..<nat N] (zeros (nat N) (nat N))))"
  using assms
  by (simp add: calculate_irradiance_vectorized_def Let_def receiver_grid_def linspace_def py_bind_def
                py_truediv_def py_range_def split_beta)

lemma calculate_irradiance_vectorized_cell:
  assumes "0 < N" "L \<noteq> 0" "a < nat N" "b < nat N"
  shows "\<exists>F. calculate_irradiance_vectorized p l_r h_r x y L l_s h_s N = Inr F
           \<and> has_shape (nat N) (nat N) F
           \<and> F ! a ! b = Some ((\<Sum>i<nat N. \<Sum>j<nat N.
               p / (pi * (real_of_int N)\<^sup>2)
               * (L / sqrt ((linspace_points 0 l_r N ! b - (linspace_points 0 l_s N ! i + x))\<^sup>2
                          + (linspace_points 0 h_r N ! a - (linspace_points 0 h_s N ! j + y))\<^sup>2
                          + L\<^sup>2))\<^sup>2 / L\<^sup>2) / 0.005)"
proof -
  let ?xr = "linspace_points 0 l_r N" and ?yr = "linspace_points 0 h_r N"
  let ?X = "fst (meshgrid ?xr ?yr)" and ?Y = "snd (meshgrid ?xr ?yr)"
  have shX: "has_shape (nat N) (nat N) ?X" and shY: "has_shape (nat N) (nat N) ?Y"
    using has_shape_meshgrid [of ?yr ?xr] by (simp_all add: linspace_points_length)
  have Xab: "?X ! a ! b = ?xr ! b" and Yab: "?Y ! a ! b = ?yr ! a"
    using assms(3,4) by (simp_all add: meshgrid_nth linspace_points_length)
  let ?f = "\<lambda>i j::nat. map (\<lambda>v. v + x) (linspace_points 0 l_s N) ! i"
  let ?g = "\<lambda>i j::nat. map (\<lambda>v. v + y) (linspace_points 0 h_s N) ! j"
  let ?R = "fold (\<lambda>i result. fold (\<lambda>j result.
                arr_zip np_add result
                  (vectorized_step ?X ?Y (?f i j) (?g i j) L (p / (pi * (real_of_int N)\<^sup>2))))
                [0..<nat N] result) [0..<nat N] (zeros (nat N) (nat N))"
  have shR: "has_shape (nat N) (nat N) ?R"
    using shX shY by (rule vectorized_loop_shape)
  have "?R ! a ! b = Some (\<Sum>i<nat N. \<Sum>j<nat N.
             p / (pi * (real_of_int N)\<^sup>2)
             * (L / sqrt ((?X ! a ! b - ?f i j)\<^sup>2 + (?Y ! a ! b - ?g i j)\<^sup>2 + L\<^sup>2))\<^sup>2 / L\<^sup>2)"
    using shX shY assms(3,4,2) by (rule vectorized_loop_cell)
  also have "\<dots> = Some (\<Sum>i<nat N. \<Sum>j<nat N.
               p / (pi * (real_of_int N)\<^sup>2)
               * (L / sqrt ((?xr ! b - (linspace_points 0 l_s N ! i + x))\<^sup>2
                          + (?yr ! a - (linspace_points 0 h_s N ! j + y))\<^sup>2
                          + L\<^sup>2))\<^sup>2 / L\<^sup>2)"
    by (simp add: Xab Yab linspace_points_length)
  finally have cell: "?R ! a ! b = Some (\<Sum>i<nat N. \<Sum>j<nat N.
               p / (pi * (real_of_int N)\<^sup>2)
               * (L / sqrt ((?xr ! b - (linspace_points 0 l_s N ! i + x))\<^sup>2
                          + (?yr ! a - (linspace_points 0 h_s N ! j + y))\<^sup>2
                          + L\<^sup>2))\<^sup>2 / L\<^sup>2)" .
  show ?thesis
    unfolding calculate_irradiance_vectorized_unfold [OF assms(1)]
    using shR assms(3,4) cell
    by (simp add: has_shape_arr_map arr_map_nth [OF shR] np_divide_def)
qed


lemma has_shape_optimized_step:
  "has_shape n m X \<Longrightarrow> has_shape n m Y \<Longrightarrow> has_shape n m (optimized_step X Y xs ys L I)"
  by (simp add: optimized_step_def Let_def has_shape_arr_map has_shape_arr_zip)

lemma optimized_step_nth:
  assumes "has_shape n m X" "has_shape n m Y" "a < n" "b < m"
  shows "optimized_step X Y xs ys L I ! a ! b
           = np_divide (np_multiply (Some I) (np_square (np_divide (Some L)
               (Some (sqrt ((X ! a ! b - xs)\<^sup>2 + (Y ! a ! b - ys)\<^sup>2 + L\<^sup>2))))))
               (Some ((X ! a ! b - xs)\<^sup>2 + (Y ! a ! b - ys)\<^sup>2 + L\<^sup>2))"
  using assms
  by (simp add: optimized_step_def Let_def has_shape_def arr_map_def arr_zip_def
                list_all_length)

lemma optimized_step_cell:
  assumes "has_shape n m X" "has_shape n m Y" "a < n" "b < m" "L \<noteq> 0"
  shows "optimized_step X Y xs ys L I ! a ! b
           = Some (I * (L / sqrt ((X ! a ! b - xs)\<^sup>2 + (Y ! a ! b - ys)\<^sup>2 + L\<^sup>2))\<^sup>2
                     / ((X ! a ! b - xs)\<^sup>2 + (Y ! a ! b - ys)\<^sup>2 + L\<^sup>2))"
proof -
  have "0 < (X ! a ! b - xs)\<^sup>2 + (Y ! a ! b - ys)\<^sup>2 + L\<^sup>2"
    using sq_sum_pos [OF assms(5)] .
  then show ?thesis
    using assms
    by (simp add: optimized_step_nth np_divide_def np_multiply_def np_square_def)
qed

lemma calculate_irradiance_optimized_shape:
  assumes "has_shape n n X" "has_shape n n Y"
  shows "has_shape n n (calculate_irradiance_optimized X Y xs ys L I)"
proof -
  have n: "length X = n" using assms(1) by (simp add: has_shape_def)
  show ?thesis
    unfolding calculate_irradiance_optimized_def Let_def n
    using has_shape_zeros has_shape_optimized_step [OF assms]
    by (rule fold2_add_shape)
qed

lemma calculate_irradiance_optimized_cell:
  assumes "has_shape n n X" "has_shape n n Y" "a < n" "b < n" "L \<noteq> 0"
  shows "calculate_irradiance_optimized X Y xs ys L I ! a ! b
         = Some (\<Sum>i<length xs. \<Sum>j<length ys.
             I * (L / sqrt ((X ! a ! b - xs ! i)\<^sup>2 + (Y ! a ! b - ys ! j)\<^sup>2 + L\<^sup>2))\<^sup>2
               / ((X ! a ! b - xs ! i)\<^sup>2 + (Y ! a ! b - ys ! j)\<^sup>2 + L\<^sup>2))"
proof -
  have n: "length X = n" using assms(1) by (simp add: has_shape_def)
  have sh: "\<And>i j. has_shape n n (optimized_step X Y (xs ! i) (ys ! j) L I)"
    using assms(1,2) by (rule has_shape_optimized_step)
  have "calculate_irradiance_optimized X Y xs ys L I ! a ! b
        = fold (\<lambda>i v. fold (\<lambda>j v.
             np_add v (optimized_step X Y (xs ! i) (ys ! j) L I ! a ! b)) [0..<length ys] v)
             [0..<length xs] (zeros n n ! a ! b)"
    unfolding calculate_irradiance_optimized_def Let_def n
    using has_shape_zeros sh assms(3,4) by (rule fold2_add_cell)
  also have "\<dots> = fold (\<lambda>i v. fold (\<lambda>j v. np_add v (Some
             (I * (L / sqrt ((X ! a ! b - xs ! i)\<^sup>2 + (Y ! a ! b - ys ! j)\<^sup>2 + L\<^sup>2))\<^sup>2
               / ((X ! a ! b - xs ! i)\<^sup>2 + (Y ! a ! b - ys ! j)\<^sup>2 + L\<^sup>2))))
             [0..<length ys] v) [0..<length xs] (Some 0)"
    using assms by (simp add: optimized_step_cell zeros_nth)
  finally show ?thesis
    by (simp add: fold2_np_add_Some_upt)
qed

lemma source_points_factor_bounds: "2 \<le> source_points_factor N" "source_points_factor N \<le> 10"
  by (simp_all add: source_points_factor_def)

lemma calculate_irradiance_extended_model_unfold:
  assumes "0 \<le> self_accuracy self" "self_R self \<noteq> 0"
  shows "calculate_irradiance_extended_model self
         = Inr (let result = calculate_irradiance_optimized
                  (fst (meshgrid (linspace_points 0 (self_l_r self) (self_accuracy self))
                                 (linspace_points 0 (self_h_r self) (self_accuracy self))))
                  (snd (meshgrid (linspace_points 0 (self_l_r self) (self_accuracy self))
                                 (linspace_points 0 (self_h_r self) (self_accuracy self))))
                  (map (\<lambda>v. v + self_x self)
                     (linspace_points (- self_l_s self / 2) (self_l_s self / 2)
                        (source_points_factor (self_accuracy self))))
                  (map (\<lambda>v. v + self_y self)
                     (linspace_points (- self_h_s self / 2) (self_h_s self / 2)
                        (source_points_factor (self_accuracy self))))
                  (self_R self)
                  (self_p self / (real (nat (source_points_factor (self_accuracy self)))
                                   * real (nat (source_points_factor (self_accuracy self)))) / pi)
                in if self_R self < max (self_l_s self) (self_h_s self) * 10
                   then arr_map (\<lambda>v. np_multiply v
                          (Some (1 + 0.1 * (max (self_l_s self) (self_h_s self) / self_R self)))) result
                   else result)"
proof -
  have k: "0 < source_points_factor (self_accuracy self)"
    using source_points_factor_bounds(1) [of "self_accuracy self"] by linarith
  have ne: "linspace_points u v (source_points_factor (self_accuracy self)) \<noteq> []" for u v
    using linspace_points_length [of u v "source_points_factor (self_accuracy self)"] k by auto
  have k': "\<not> source_points_factor (self_accuracy self) < 0" using k by linarith
  show ?thesis
    using assms k k' ne
    by (simp add: calculate_irradiance_extended_model_def Let_def receiver_grid_def linspace_def py_bind_def
                  py_truediv_def split_beta linspace_points_length mult.commute)
qed

section \<open>The per-pair kernel\<close>

lemma cos_sq_over_norm:
  assumes "L \<noteq> 0"
  shows "I * (L / sqrt (u\<^sup>2 + v\<^sup>2 + L\<^sup>2))\<^sup>2 / L\<^sup>2 = I / (u\<^sup>2 + v\<^sup>2 + (L::real)\<^sup>2)"
proof -
  have pos: "0 < u\<^sup>2 + v\<^sup>2 + L\<^sup>2" using assms by (rule sq_sum_pos)
  then have "(sqrt (u\<^sup>2 + v\<^sup>2 + L\<^sup>2))\<^sup>2 = u\<^sup>2 + v\<^sup>2 + L\<^sup>2" by simp
  then show ?thesis using assms pos by (simp add: power_divide)
qed

lemma ps_from_point_cell:
  assumes "L_sr \<noteq> 0"
  shows "ps_from_point x y xs ys x_pos y_pos L_sr I_i
         = Some (I_i * (L_sr / sqrt ((xs + x_pos - x)\<^sup>2 + (ys + y_pos - y)\<^sup>2 + L_sr\<^sup>2))\<^sup>2 / L_sr\<^sup>2)"
proof -
  have "sqrt ((xs + x_pos - x)\<^sup>2 + (ys + y_pos - y)\<^sup>2 + L_sr\<^sup>2) \<noteq> 0"
    using sq_sum_pos [OF assms, of "xs + x_pos - x" "ys + y_pos - y"] by simp
  then show ?thesis
    using assms
    by (simp add: ps_from_point_def Let_def np_divide_def np_multiply_def np_square_def)
qed

text \<open>
  C10. In \<open>main.py\<close>, \<open>main2.py\<close> and \<open>interactive_app.py\<close> (the last two share the loop
  body \<open>vectorized_step\<close>), for a standoff \<open>L_sr > 0\<close> and any offsets the per-pair
  contribution \<open>I_i * (L_sr / sqrt (dx\<^sup>2 + dy\<^sup>2 + L_sr\<^sup>2))\<^sup>2 / L_sr\<^sup>2\<close> is the finite value
  \<open>I_i / (dx\<^sup>2 + dy\<^sup>2 + L_sr\<^sup>2)\<close>: a pure inverse square of the separation.
\<close>

theorem kernel_is_pure_inverse_square:
  assumes "0 < L_sr" "has_shape n m X_r" "has_shape n m Y_r" "a < n" "b < m"
  shows "ps_from_point x y xs ys x_pos y_pos L_sr I_i
           = Some (I_i / ((xs + x_pos - x)\<^sup>2 + (ys + y_pos - y)\<^sup>2 + L_sr\<^sup>2))
         \<and> vectorized_step X_r Y_r x_s y_s L_sr I_i ! a ! b
           = Some (I_i / ((X_r ! a ! b - x_s)\<^sup>2 + (Y_r ! a ! b - y_s)\<^sup>2 + L_sr\<^sup>2))
         \<and> I_i * (L_sr / sqrt ((X_r ! a ! b - x_s)\<^sup>2 + (Y_r ! a ! b - y_s)\<^sup>2 + L_sr\<^sup>2))\<^sup>2 / L_sr\<^sup>2
           = I_i / ((X_r ! a ! b - x_s)\<^sup>2 + (Y_r ! a ! b - y_s)\<^sup>2 + L_sr\<^sup>2)"
proof -
  have L: "L_sr \<noteq> 0" using assms(1) by simp
  show ?thesis
    using assms(2-5)
    by (simp add: ps_from_point_cell [OF L] vectorized_step_cell [OF _ _ _ _ L]
                  cos_sq_over_norm [OF L])
qed

theorem kernel_is_pure_inverse_square_witness:
  "0 < (1::real) \<and> has_shape 1 2 [[0, 1::real]] \<and> has_shape 1 2 [[0, 0::real]]
   \<and> ps_from_point 0 0 1 0 0 0 1 3 = Some (3 / 2)
   \<and> vectorized_step [[0, 1]] [[0, 0]] 1 0 1 3 ! 0 ! 1 = Some 3"
proof -
  have sh: "has_shape 1 2 [[0, 1::real]]" "has_shape 1 2 [[0, 0::real]]"
    by (simp_all add: has_shape_def)
  show ?thesis
    using kernel_is_pure_inverse_square
            [of 1 1 2 "[[0, 1]]" "[[0, 0]]" 0 1 0 0 1 0 0 0 3 1 0, OF _ sh] sh
    by simp
qed

text \<open>
  C1. The claim as stated fails: the contribution is \<open>I_i * cos\<^sup>2\<alpha> / r\<^sup>2\<close> in the JIT kernel
  of \<open>incupsulation.py\<close> only. At \<open>dx = -1\<close>, \<open>dy = 0\<close>, \<open>L_sr = 1\<close>, \<open>I_i = 1\<close> the loop
  body of \<open>main2.py\<close> yields \<open>1/2\<close>, where \<open>I_i * cos\<^sup>2\<alpha> / r\<^sup>2 = 1/4\<close>.
\<close>

theorem contribution_vectorized_counterexample:
  "vectorized_step [[0]] [[0]] 1 0 1 1 ! 0 ! 0
     \<noteq> Some (1 * (1 / sqrt ((0 - 1)\<^sup>2 + (0 - 0)\<^sup>2 + 1\<^sup>2))\<^sup>2 / ((0 - 1)\<^sup>2 + (0 - 0)\<^sup>2 + 1\<^sup>2))"
proof -
  have "vectorized_step [[0]] [[0]] 1 0 1 1 ! 0 ! 0 = Some (1 / 2)"
    by (simp add: vectorized_step_def arr_map_def arr_zip_def np_divide_def np_multiply_def
                  np_square_def power_divide)
  then show ?thesis
    by (simp add: power_divide)
qed

text \<open>
  C1, as amended. With \<open>r\<^sup>2 = dx\<^sup>2 + dy\<^sup>2 + L_sr\<^sup>2\<close>, \<open>cos \<alpha> = L_sr / sqrt r\<^sup>2\<close> and
  \<open>L_sr \<noteq> 0\<close>: one iteration of the JIT kernel of \<open>incupsulation.py\<close> adds
  \<open>I_i * cos\<^sup>2\<alpha> / r\<^sup>2\<close> to the receiver cell; one iteration of the loop of \<open>main2.py\<close> and of
  \<open>interactive_app.py\<close> adds \<open>I_i * cos\<^sup>2\<alpha> / L_sr\<^sup>2\<close>; and \<open>ps_from_point\<close> of \<open>main.py\<close>
  returns \<open>I_i * cos\<^sup>2\<alpha> / L_sr\<^sup>2\<close>.
\<close>

theorem contribution_per_variant:
  assumes "L_sr \<noteq> 0" "has_shape n m X_r" "has_shape n m Y_r" "has_shape n m result"
    and "a < n" "b < m"
  shows "arr_zip np_add result (optimized_step X_r Y_r x_s y_s L_sr I_i) ! a ! b
           = np_add (result ! a ! b)
               (Some (I_i * (L_sr / sqrt ((X_r ! a ! b - x_s)\<^sup>2 + (Y_r ! a ! b - y_s)\<^sup>2 + L_sr\<^sup>2))\<^sup>2
                        / ((X_r ! a ! b - x_s)\<^sup>2 + (Y_r ! a ! b - y_s)\<^sup>2 + L_sr\<^sup>2)))
         \<and> arr_zip np_add result (vectorized_step X_r Y_r x_s y_s L_sr I_i) ! a ! b
           = np_add (result ! a ! b)
               (Some (I_i * (L_sr / sqrt ((X_r ! a ! b - x_s)\<^sup>2 + (Y_r ! a ! b - y_s)\<^sup>2 + L_sr\<^sup>2))\<^sup>2
                        / L_sr\<^sup>2))
         \<and> ps_from_point x y xs ys x_pos y_pos L_sr I_i
           = Some (I_i * (L_sr / sqrt ((xs + x_pos - x)\<^sup>2 + (ys + y_pos - y)\<^sup>2 + L_sr\<^sup>2))\<^sup>2
                     / L_sr\<^sup>2)"
proof -
  have o: "has_shape n m (optimized_step X_r Y_r x_s y_s L_sr I_i)"
    using assms(2,3) by (rule has_shape_optimized_step)
  have v: "has_shape n m (vectorized_step X_r Y_r x_s y_s L_sr I_i)"
    using assms(2,3) by (rule has_shape_vectorized_step)
  show ?thesis
    using assms
    by (simp add: arr_zip_nth [OF assms(4) o] arr_zip_nth [OF assms(4) v]
                  optimized_step_cell vectorized_step_cell ps_from_point_cell)
qed

theorem contribution_per_variant_witness:
  "(2::real) \<noteq> 0 \<and> has_shape 1 1 [[2::real]] \<and> has_shape 1 1 [[1::real]]
   \<and> has_shape 1 1 [[Some (0::real)]]
   \<and> arr_zip np_add [[Some 0]] (optimized_step [[2]] [[1]] 0 0 2 81) ! 0 ! 0 = Some 4
   \<and> arr_zip np_add [[Some 0]] (vectorized_step [[2]] [[1]] 0 0 2 81) ! 0 ! 0 = Some 9
   \<and> ps_from_point 0 0 2 1 0 0 2 81 = Some 9"
proof -
  have sh: "has_shape 1 1 [[2::real]]" "has_shape 1 1 [[1::real]]"
    "has_shape 1 1 [[Some (0::real)]]"
    by (simp_all add: has_shape_def)
  show ?thesis
    using contribution_per_variant
            [of 2 1 1 "[[2]]" "[[1]]" "[[Some 0]]" 0 0 0 0 81 0 0 2 1 0 0, OF _ sh] sh
    by (simp add: np_add_def power_divide)
qed

section \<open>The receiver grids\<close>

declare ps_for_all_ys.simps [simp del] ps_for_all_xs.simps [simp del]

lemma receiver_grid_Inr:
  "0 \<le> N \<Longrightarrow> receiver_grid l_r h_r N
     = Inr (meshgrid (linspace_points 0 l_r N) (linspace_points 0 h_r N))"
  by (simp add: receiver_grid_def linspace_def py_bind_def)

lemma step_below:
  assumes "0 < (h::real)" "0 < N"
  shows "real_of_int i * (h / real_of_int N) < h \<longleftrightarrow> i < N"
proof -
  have "real_of_int i * (h / real_of_int N) < h \<longleftrightarrow> real_of_int i * h < h * real_of_int N"
    using assms by (simp add: field_simps)
  also have "\<dots> \<longleftrightarrow> real_of_int i < real_of_int N"
    using assms(1) by (simp add: mult.commute)
  finally show ?thesis by simp
qed

lemma ps_for_all_ys_grid:
  assumes "0 < h_r" "0 < match" "y = real_of_int yi * (h_r / real_of_int match)"
  shows "ps_for_all_ys task h_r (h_r / real_of_int match) match xi yi y tasks_list
         = tasks_list @ map (\<lambda>j. (task (real_of_int j * (h_r / real_of_int match)), xi, j))
                          [yi..match - 1]"
  using assms
proof (induction task h_r "h_r / real_of_int match" match xi yi y tasks_list
       rule: ps_for_all_ys.induct)
  case (1 task h_r match xi yi y tasks_list)
  show ?case
  proof (cases "yi < match")
    case True
    then have c: "y < h_r \<and> yi < match"
      using 1(2,3,4) step_below [of h_r match yi] by simp
    have nxt: "y + h_r / real_of_int match = real_of_int (yi + 1) * (h_r / real_of_int match)"
      using 1(4) by (simp add: distrib_right add_divide_distrib)
    have up: "[yi..match - 1] = yi # [yi + 1..match - 1]"
      using True by (simp add: upto_rec1)
    show ?thesis
      using c 1(1) [OF c 1(2,3) nxt] 1(4)
      by (subst ps_for_all_ys.simps) (simp add: up)
  next
    case False
    then show ?thesis
      by (subst ps_for_all_ys.simps) simp
  qed
qed

lemma ps_for_all_xs_grid:
  assumes "0 < l_r" "0 < h_r" "0 < match" "x = real_of_int xi * (l_r / real_of_int match)"
  shows "ps_for_all_xs task l_r h_r (l_r / real_of_int match) (h_r / real_of_int match)
           match xi x tasks_list
         = tasks_list @ concat (map (\<lambda>i. map (\<lambda>j.
               (task (real_of_int i * (l_r / real_of_int match))
                     (real_of_int j * (h_r / real_of_int match)), i, j))
               [0..match - 1]) [xi..match - 1])"
  using assms
proof (induction task l_r h_r "l_r / real_of_int match" "h_r / real_of_int match" match xi x
         tasks_list rule: ps_for_all_xs.induct)
  case (1 task l_r h_r match xi x tasks_list)
  show ?case
  proof (cases "xi < match")
    case True
    then have c: "x < l_r \<and> xi < match"
      using 1(2,4,5) step_below [of l_r match xi] by simp
    have nxt: "x + l_r / real_of_int match = real_of_int (xi + 1) * (l_r / real_of_int match)"
      using 1(5) by (simp add: distrib_right add_divide_distrib)
    have up: "[xi..match - 1] = xi # [xi + 1..match - 1]"
      using True by (simp add: upto_rec1)
    have inner: "ps_for_all_ys (task x) h_r (h_r / real_of_int match) match xi 0 0 tasks_list
         = tasks_list @ map (\<lambda>j. (task x (real_of_int j * (h_r / real_of_int match)), xi, j))
                          [0..match - 1]"
      using 1(3,4) by (rule ps_for_all_ys_grid) simp
    show ?thesis
      using c 1(1) [OF c 1(2,3,4) nxt] 1(5) inner
      by (subst ps_for_all_xs.simps) (simp add: up)
  next
    case False
    then show ?thesis
      by (subst ps_for_all_xs.simps) simp
  qed
qed

lemma meshgrid_shape_points:
  "0 \<le> N \<Longrightarrow> has_shape (nat N) (nat N)
      (fst (meshgrid (linspace_points 0 l_r N) (linspace_points 0 h_r N)))"
  "0 \<le> N \<Longrightarrow> has_shape (nat N) (nat N)
      (snd (meshgrid (linspace_points 0 l_r N) (linspace_points 0 h_r N)))"
  using has_shape_meshgrid [of "linspace_points 0 h_r N" "linspace_points 0 l_r N"]
  by (simp_all add: linspace_points_length)

text \<open>
  C5. The claim as stated fails for \<open>main.py\<close>: with \<open>N = 2\<close> and \<open>l_r = h_r = 1\<close> its steps
  are \<open>l_r / N = 1/2\<close>, and the receiver point of the task with \<open>xi = 1\<close>, \<open>yi = 0\<close> has
  \<open>x = 1/2\<close>, not \<open>1 * l_r / (N - 1) = 1\<close>.
\<close>

theorem main_receiver_grid_counterexample:
  "ps_for_all_xs (\<lambda>x y. (x, y)) 1 1 (1 / 2) (1 / 2) 2 0 0 []
     = [((0, 0), 0, 0), ((0, 1 / 2), 0, 1), ((1 / 2, 0), 1, 0), ((1 / 2, 1 / 2), 1, 1)]
   \<and> fst (fst (ps_for_all_xs (\<lambda>x y. (x, y)) 1 1 (1 / 2) (1 / 2) 2 0 0 [] ! 2))
       \<noteq> 1 * (1 / (2 - 1))"
  by (simp add: ps_for_all_xs.simps ps_for_all_ys.simps)

text \<open>
  C5, as amended. For \<open>N \<ge> 2\<close> and \<open>l_r, h_r > 0\<close>: the three NumPy variants build the
  \<open>N \<times> N\<close> grid \<open>x_r[i] = i * l_r / (N - 1)\<close>, \<open>y_r[j] = j * h_r / (N - 1)\<close>, both endpoints
  included; \<open>main.py\<close> visits the \<open>N \<times> N\<close> points \<open>x = i * l_r / N\<close>, \<open>y = j * h_r / N\<close> for
  \<open>i, j\<close> in \<open>[0, N)\<close>, which leaves out the far edges \<open>l_r\<close> and \<open>h_r\<close>.
\<close>

theorem receiver_grid_per_variant:
  assumes "2 \<le> N" "0 < l_r" "0 < h_r"
  shows "(\<exists>X_r Y_r. receiver_grid l_r h_r N = Inr (X_r, Y_r)
            \<and> has_shape (nat N) (nat N) X_r \<and> has_shape (nat N) (nat N) Y_r
            \<and> (\<forall>i<nat N. \<forall>j<nat N.
                  X_r ! j ! i = real i * (l_r / (real_of_int N - 1))
                \<and> Y_r ! j ! i = real j * (h_r / (real_of_int N - 1))))
         \<and> ps_for_all_xs task l_r h_r (l_r / real_of_int N) (h_r / real_of_int N) N 0 0 []
           = concat (map (\<lambda>i. map (\<lambda>j.
               (task (real_of_int i * (l_r / real_of_int N))
                     (real_of_int j * (h_r / real_of_int N)), i, j))
               [0..N - 1]) [0..N - 1])"
proof -
  have N0: "0 \<le> N" "0 < N" using assms(1) by simp_all
  let ?X = "fst (meshgrid (linspace_points 0 l_r N) (linspace_points 0 h_r N))"
  let ?Y = "snd (meshgrid (linspace_points 0 l_r N) (linspace_points 0 h_r N))"
  have "receiver_grid l_r h_r N = Inr (?X, ?Y)"
    using N0(1) by (simp add: receiver_grid_Inr)
  moreover have "has_shape (nat N) (nat N) ?X" "has_shape (nat N) (nat N) ?Y"
    using N0(1) by (rule meshgrid_shape_points)+
  moreover have "\<forall>i<nat N. \<forall>j<nat N.
                  ?X ! j ! i = real i * (l_r / (real_of_int N - 1))
                \<and> ?Y ! j ! i = real j * (h_r / (real_of_int N - 1))"
    using assms(1) by (simp add: meshgrid_nth linspace_points_length linspace_points_nth)
  moreover have "ps_for_all_xs task l_r h_r (l_r / real_of_int N) (h_r / real_of_int N) N 0 0 []
           = concat (map (\<lambda>i. map (\<lambda>j.
               (task (real_of_int i * (l_r / real_of_int N))
                     (real_of_int j * (h_r / real_of_int N)), i, j))
               [0..N - 1]) [0..N - 1])"
    using ps_for_all_xs_grid [OF assms(2,3) N0(2), of 0 0 task "[]"] by simp
  ultimately show ?thesis by blast
qed

theorem receiver_grid_per_variant_witness:
  "(2::int) \<le> 2 \<and> (0::real) < 1 \<and> (0::real) < 3
   \<and> receiver_grid 1 3 2 = Inr ([[0, 1], [0, 1]], [[0, 0], [3, 3]])
   \<and> ps_for_all_xs (\<lambda>x y. (x, y)) 1 3 (1 / 2) (3 / 2) 2 0 0 []
       = [((0, 0), 0, 0), ((0, 3 / 2), 0, 1), ((1 / 2, 0), 1, 0), ((1 / 2, 3 / 2), 1, 1)]"
proof -
  have g: "receiver_grid 1 3 2 = Inr ([[0, 1], [0, 1]], [[0, 0], [3, 3]])"
    by (simp add: receiver_grid_def linspace_def py_bind_def linspace_points_def meshgrid_def
                  numeral_2_eq_2)
  have u: "[0..1] = [0, 1::int]"
    by (simp add: upto_rec1)
  show ?thesis
    using receiver_grid_per_variant [of 2 1 3 "\<lambda>x y. (x, y)"] g
    by (simp add: u)
qed

section \<open>The extended model, cell by cell\<close>

lemma calculate_irradiance_extended_model_cell:
  assumes "0 \<le> self_accuracy self" "self_R self \<noteq> 0"
    and "a < nat (self_accuracy self)" "b < nat (self_accuracy self)"
  shows "\<exists>F. calculate_irradiance_extended_model self = Inr F
           \<and> has_shape (nat (self_accuracy self)) (nat (self_accuracy self)) F
           \<and> F ! a ! b = Some
               ((\<Sum>i<nat (source_points_factor (self_accuracy self)).
                 \<Sum>j<nat (source_points_factor (self_accuracy self)).
                   self_p self / (real (nat (source_points_factor (self_accuracy self)))
                                   * real (nat (source_points_factor (self_accuracy self)))) / pi
                   * (self_R self / sqrt
                        ((linspace_points 0 (self_l_r self) (self_accuracy self) ! b
                            - (linspace_points (- self_l_s self / 2) (self_l_s self / 2)
                                 (source_points_factor (self_accuracy self)) ! i + self_x self))\<^sup>2
                       + (linspace_points 0 (self_h_r self) (self_accuracy self) ! a
                            - (linspace_points (- self_h_s self / 2) (self_h_s self / 2)
                                 (source_points_factor (self_accuracy self)) ! j + self_y self))\<^sup>2
                       + (self_R self)\<^sup>2))\<^sup>2
                   / ((linspace_points 0 (self_l_r self) (self_accuracy self) ! b
                            - (linspace_points (- self_l_s self / 2) (self_l_s self / 2)
                                 (source_points_factor (self_accuracy self)) ! i + self_x self))\<^sup>2
                       + (linspace_points 0 (self_h_r self) (self_accuracy self) ! a
                            - (linspace_points (- self_h_s self / 2) (self_h_s self / 2)
                                 (source_points_factor (self_accuracy self)) ! j + self_y self))\<^sup>2
                       + (self_R self)\<^sup>2))
                * (if self_R self < max (self_l_s self) (self_h_s self) * 10
                   then 1 + 0.1 * (max (self_l_s self) (self_h_s self) / self_R self) else 1))"
proof -
  let ?N = "self_accuracy self" and ?k = "source_points_factor (self_accuracy self)"
  let ?xr = "linspace_points 0 (self_l_r self) ?N" and ?yr = "linspace_points 0 (self_h_r self) ?N"
  let ?X = "fst (meshgrid ?xr ?yr)" and ?Y = "snd (meshgrid ?xr ?yr)"
  let ?s = "linspace_points (- self_l_s self / 2) (self_l_s self / 2) ?k"
  let ?t = "linspace_points (- self_h_s self / 2) (self_h_s self / 2) ?k"
  let ?xs = "map (\<lambda>v. v + self_x self) ?s" and ?ys = "map (\<lambda>v. v + self_y self) ?t"
  let ?I = "self_p self / (real (nat ?k) * real (nat ?k)) / pi"
  let ?A = "calculate_irradiance_optimized ?X ?Y ?xs ?ys (self_R self) ?I"
  have shX: "has_shape (nat ?N) (nat ?N) ?X" and shY: "has_shape (nat ?N) (nat ?N) ?Y"
    using assms(1) by (rule meshgrid_shape_points)+
  have shA: "has_shape (nat ?N) (nat ?N) ?A"
    using shX shY by (rule calculate_irradiance_optimized_shape)
  have Xab: "?X ! a ! b = ?xr ! b" and Yab: "?Y ! a ! b = ?yr ! a"
    using assms(3,4) by (simp_all add: meshgrid_nth linspace_points_length)
  have "?A ! a ! b = Some (\<Sum>i<length ?xs. \<Sum>j<length ?ys.
             ?I * (self_R self / sqrt ((?X ! a ! b - ?xs ! i)\<^sup>2 + (?Y ! a ! b - ?ys ! j)\<^sup>2 + (self_R self)\<^sup>2))\<^sup>2
               / ((?X ! a ! b - ?xs ! i)\<^sup>2 + (?Y ! a ! b - ?ys ! j)\<^sup>2 + (self_R self)\<^sup>2))"
    using shX shY assms(3,4,2) by (rule calculate_irradiance_optimized_cell)
  also have "\<dots> = Some (\<Sum>i<nat ?k. \<Sum>j<nat ?k.
             ?I * (self_R self / sqrt ((?xr ! b - (?s ! i + self_x self))\<^sup>2
                       + (?yr ! a - (?t ! j + self_y self))\<^sup>2 + (self_R self)\<^sup>2))\<^sup>2
               / ((?xr ! b - (?s ! i + self_x self))\<^sup>2
                       + (?yr ! a - (?t ! j + self_y self))\<^sup>2 + (self_R self)\<^sup>2))"
    by (simp add: Xab Yab linspace_points_length)
  finally have cell: "?A ! a ! b = Some (\<Sum>i<nat ?k. \<Sum>j<nat ?k.
             ?I * (self_R self / sqrt ((?xr ! b - (?s ! i + self_x self))\<^sup>2
                       + (?yr ! a - (?t ! j + self_y self))\<^sup>2 + (self_R self)\<^sup>2))\<^sup>2
               / ((?xr ! b - (?s ! i + self_x self))\<^sup>2
                       + (?yr ! a - (?t ! j + self_y self))\<^sup>2 + (self_R self)\<^sup>2))" .
  define A where "A = ?A"
  define c where "c = 1 + 0.1 * (max (self_l_s self) (self_h_s self) / self_R self)"
  have ext: "calculate_irradiance_extended_model self
               = Inr (if self_R self < max (self_l_s self) (self_h_s self) * 10
                      then arr_map (\<lambda>v. np_multiply v (Some c)) A else A)"
    unfolding calculate_irradiance_extended_model_unfold [OF assms(1,2)] Let_def A_def c_def ..
  have shA': "has_shape (nat ?N) (nat ?N) A"
    using shA by (simp only: A_def)
  define S where "S = (\<Sum>i<nat ?k. \<Sum>j<nat ?k.
             ?I * (self_R self / sqrt ((?xr ! b - (?s ! i + self_x self))\<^sup>2
                       + (?yr ! a - (?t ! j + self_y self))\<^sup>2 + (self_R self)\<^sup>2))\<^sup>2
               / ((?xr ! b - (?s ! i + self_x self))\<^sup>2
                       + (?yr ! a - (?t ! j + self_y self))\<^sup>2 + (self_R self)\<^sup>2))"
  have cell': "A ! a ! b = Some S"
    using cell by (simp only: A_def S_def)
  have "\<exists>F. calculate_irradiance_extended_model self = Inr F
           \<and> has_shape (nat ?N) (nat ?N) F
           \<and> F ! a ! b = Some (S * (if self_R self < max (self_l_s self) (self_h_s self) * 10
                                     then c else 1))"
  proof (cases "self_R self < max (self_l_s self) (self_h_s self) * 10")
    case True
    have "arr_map (\<lambda>v. np_multiply v (Some c)) A ! a ! b = np_multiply (A ! a ! b) (Some c)"
      using shA' assms(3,4) by (rule arr_map_nth)
    also have "\<dots> = Some (S * c)"
      by (simp add: cell' np_multiply_def)
    finally show ?thesis
      unfolding ext using True shA'
      by (simp add: has_shape_arr_map)
  next
    case False
    then show ?thesis
      unfolding ext using shA' cell' by simp
  qed
  then show ?thesis
    by (simp only: S_def c_def)
qed

section \<open>Failures\<close>

lemma calculate_irradiance_vectorized_negative:
  "N < 0 \<Longrightarrow> calculate_irradiance_vectorized p l_r h_r x y R l_s h_s N = Inl ValueError"
  by (simp add: calculate_irradiance_vectorized_def receiver_grid_def linspace_def py_bind_def)

lemma calculate_irradiance_vectorized_zero:
  "calculate_irradiance_vectorized p l_r h_r x y R l_s h_s 0 = Inl ZeroDivisionError"
  by (simp add: calculate_irradiance_vectorized_def receiver_grid_def linspace_def py_bind_def
                py_truediv_def split_beta)

lemma calculate_irradiance_extended_model_negative:
  "self_accuracy self < 0 \<Longrightarrow> calculate_irradiance_extended_model self = Inl ValueError"
  by (simp add: calculate_irradiance_extended_model_def receiver_grid_def linspace_def
                py_bind_def)

lemma calculate_irradiance_extended_model_standoff_zero:
  assumes "0 \<le> self_accuracy self" "self_R self = 0"
  shows "calculate_irradiance_extended_model self
         = (if 0 < max (self_l_s self) (self_h_s self) then Inl ZeroDivisionError
            else Inr (calculate_irradiance_optimized
                  (fst (meshgrid (linspace_points 0 (self_l_r self) (self_accuracy self))
                                 (linspace_points 0 (self_h_r self) (self_accuracy self))))
                  (snd (meshgrid (linspace_points 0 (self_l_r self) (self_accuracy self))
                                 (linspace_points 0 (self_h_r self) (self_accuracy self))))
                  (map (\<lambda>v. v + self_x self)
                     (linspace_points (- self_l_s self / 2) (self_l_s self / 2)
                        (source_points_factor (self_accuracy self))))
                  (map (\<lambda>v. v + self_y self)
                     (linspace_points (- self_h_s self / 2) (self_h_s self / 2)
                        (source_points_factor (self_accuracy self))))
                  0
                  (self_p self / (real (nat (source_points_factor (self_accuracy self)))
                                   * real (nat (source_points_factor (self_accuracy self)))) / pi)))"
proof -
  have k: "0 < source_points_factor (self_accuracy self)"
    using source_points_factor_bounds(1) [of "self_accuracy self"] by linarith
  have ne: "linspace_points u v (source_points_factor (self_accuracy self)) \<noteq> []" for u v
    using linspace_points_length [of u v "source_points_factor (self_accuracy self)"] k by auto
  have k': "\<not> source_points_factor (self_accuracy self) < 0" using k by linarith
  show ?thesis
    using assms k k' ne
    by (simp add: calculate_irradiance_extended_model_def Let_def receiver_grid_def linspace_def
                  py_bind_def py_truediv_def split_beta linspace_points_length mult.commute)
qed

lemma calculate_irradiance_extended_model_empty:
  assumes "self_accuracy self = 0" "self_R self \<noteq> 0"
  shows "calculate_irradiance_extended_model self = Inr []"
proof -
  have N: "0 \<le> self_accuracy self" using assms(1) by simp
  define A where "A = calculate_irradiance_optimized
                  (fst (meshgrid (linspace_points 0 (self_l_r self) (self_accuracy self))
                                 (linspace_points 0 (self_h_r self) (self_accuracy self))))
                  (snd (meshgrid (linspace_points 0 (self_l_r self) (self_accuracy self))
                                 (linspace_points 0 (self_h_r self) (self_accuracy self))))
                  (map (\<lambda>v. v + self_x self)
                     (linspace_points (- self_l_s self / 2) (self_l_s self / 2)
                        (source_points_factor (self_accuracy self))))
                  (map (\<lambda>v. v + self_y self)
                     (linspace_points (- self_h_s self / 2) (self_h_s self / 2)
                        (source_points_factor (self_accuracy self))))
                  (self_R self)
                  (self_p self / (real (nat (source_points_factor (self_accuracy self)))
                                   * real (nat (source_points_factor (self_accuracy self)))) / pi)"
  have "has_shape (nat (self_accuracy self)) (nat (self_accuracy self)) A"
    unfolding A_def using meshgrid_shape_points [OF N]
    by (rule calculate_irradiance_optimized_shape)
  then have A: "A = []"
    by (simp add: has_shape_def assms(1))
  have "calculate_irradiance_extended_model self
          = Inr (if self_R self < max (self_l_s self) (self_h_s self) * 10
                 then arr_map (\<lambda>v. np_multiply v
                        (Some (1 + 0.1 * (max (self_l_s self) (self_h_s self) / self_R self)))) A
                 else A)"
    unfolding calculate_irradiance_extended_model_unfold [OF N assms(2)] Let_def A_def ..
  then show ?thesis
    by (simp add: A arr_map_def)
qed

text \<open>
  C3. The claim as stated fails: no variant checks its input, and the three error kinds
  do not exist in the code. With the receiver length \<open>l_r = -1\<close>, the standoff \<open>L = -1\<close>
  and accuracy \<open>1\<close>, \<open>main2.py\<close> returns a \<open>1 \<times> 1\<close> field.
\<close>

theorem no_validation_counterexample:
  "calculate_irradiance_vectorized 1 (- 1) 1 0 0 (- 1) 1 1 1 = Inr [[Some (200 / pi)]]"
  by (simp add: calculate_irradiance_vectorized_def receiver_grid_def linspace_def py_bind_def
                py_truediv_def py_range_def linspace_points_one meshgrid_def zeros_def
                vectorized_step_def arr_map_def arr_zip_def np_divide_def np_multiply_def
                np_square_def np_add_def)

text \<open>
  C3, as amended. The solvers do not check the dimensions, the accuracy or the standoff,
  and fail on a bad accuracy or a zero standoff only through Python's own errors: a
  negative accuracy raises \<open>ValueError\<close> (from \<open>linspace\<close>) in \<open>main2.py\<close> and in the
  extended model of \<open>incupsulation.py\<close>; accuracy \<open>0\<close> raises \<open>ZeroDivisionError\<close> in
  \<open>main2.py\<close> and, with a non-zero standoff, returns the empty field in the extended
  model; a zero standoff with \<open>max(l_s, h_s) > 0\<close> raises \<open>ZeroDivisionError\<close> in the
  extended model.
\<close>

theorem solver_precondition_failures:
  "(N < 0 \<longrightarrow> calculate_irradiance_vectorized p l_r h_r x y R l_s h_s N = Inl ValueError)
   \<and> calculate_irradiance_vectorized p l_r h_r x y R l_s h_s 0 = Inl ZeroDivisionError
   \<and> (self_accuracy self < 0 \<longrightarrow> calculate_irradiance_extended_model self = Inl ValueError)
   \<and> (self_accuracy self = 0 \<and> self_R self \<noteq> 0 \<longrightarrow>
        calculate_irradiance_extended_model self = Inr [])
   \<and> (0 \<le> self_accuracy self \<and> self_R self = 0 \<and> 0 < max (self_l_s self) (self_h_s self) \<longrightarrow>
        calculate_irradiance_extended_model self = Inl ZeroDivisionError)"
  by (simp add: calculate_irradiance_vectorized_negative calculate_irradiance_vectorized_zero
                calculate_irradiance_extended_model_negative
                calculate_irradiance_extended_model_empty
                calculate_irradiance_extended_model_standoff_zero)

theorem solver_precondition_failures_witness:
  "calculate_irradiance_vectorized 1 1 1 0 0 1 1 1 (- 1) = Inl ValueError
   \<and> calculate_irradiance_vectorized 1 1 1 0 0 1 1 1 0 = Inl ZeroDivisionError
   \<and> calculate_irradiance_extended_model
        \<lparr>self_p = 1, self_l_r = 1, self_h_r = 1, self_x = 0, self_y = 0, self_R = 1,
         self_l_s = 1, self_h_s = 1, self_accuracy = - 1\<rparr> = Inl ValueError
   \<and> calculate_irradiance_extended_model
        \<lparr>self_p = 1, self_l_r = 1, self_h_r = 1, self_x = 0, self_y = 0, self_R = 1,
         self_l_s = 1, self_h_s = 1, self_accuracy = 0\<rparr> = Inr []
   \<and> calculate_irradiance_extended_model
        \<lparr>self_p = 1, self_l_r = 1, self_h_r = 1, self_x = 0, self_y = 0, self_R = 0,
         self_l_s = 1, self_h_s = 1, self_accuracy = 2\<rparr> = Inl ZeroDivisionError"
  using solver_precondition_failures [of "- 1" 1 1 1 0 0 1 1 1
          "\<lparr>self_p = 1, self_l_r = 1, self_h_r = 1, self_x = 0, self_y = 0, self_R = 1,
            self_l_s = 1, self_h_s = 1, self_accuracy = - 1\<rparr>"]
        solver_precondition_failures [of 0 1 1 1 0 0 1 1 1
          "\<lparr>self_p = 1, self_l_r = 1, self_h_r = 1, self_x = 0, self_y = 0, self_R = 1,
            self_l_s = 1, self_h_s = 1, self_accuracy = 0\<rparr>"]
        solver_precondition_failures [of 0 1 1 1 0 0 1 1 1
          "\<lparr>self_p = 1, self_l_r = 1, self_h_r = 1, self_x = 0, self_y = 0, self_R = 0,
            self_l_s = 1, self_h_s = 1, self_accuracy = 2\<rparr>"]
  by simp

section \<open>Comparing the variants\<close>










section \<open>Linearity in the power\<close>

lemma sum2_double:
  "(\<Sum>i<(k::nat). \<Sum>j<(m::nat). 2 * q * w i j) = 2 * (\<Sum>i<k. \<Sum>j<m. q * (w i j :: real))"
  by (simp only: mult.assoc sum_distrib_left)

text \<open>
  C8. For a standoff \<open>L > 0\<close> and an accuracy \<open>N \<ge> 2\<close>, doubling the power with
  everything else fixed doubles every cell of the field, in \<open>main2.py\<close> and in the
  extended model of \<open>incupsulation.py\<close>.
\<close>

theorem field_doubles_with_power:
  assumes "0 < self_R self" "2 \<le> self_accuracy self"
    and "a < nat (self_accuracy self)" "b < nat (self_accuracy self)"
  shows "(\<exists>F F2 v.
            calculate_irradiance_vectorized (self_p self) (self_l_r self) (self_h_r self)
              (self_x self) (self_y self) (self_R self) (self_l_s self) (self_h_s self)
              (self_accuracy self) = Inr F
          \<and> calculate_irradiance_vectorized (2 * self_p self) (self_l_r self) (self_h_r self)
              (self_x self) (self_y self) (self_R self) (self_l_s self) (self_h_s self)
              (self_accuracy self) = Inr F2
          \<and> F ! a ! b = Some v \<and> F2 ! a ! b = Some (2 * v))
       \<and> (\<exists>F F2 v.
            calculate_irradiance_extended_model self = Inr F
          \<and> calculate_irradiance_extended_model (self\<lparr>self_p := 2 * self_p self\<rparr>) = Inr F2
          \<and> F ! a ! b = Some v \<and> F2 ! a ! b = Some (2 * v))"
proof
  let ?N = "self_accuracy self" and ?L = "self_R self"
  have N: "0 < ?N" "0 \<le> ?N" and L: "?L \<noteq> 0"
    using assms(1,2) by simp_all
  note cell = calculate_irradiance_vectorized_cell
                [OF N(1) L assms(3,4), where l_r = "self_l_r self" and h_r = "self_h_r self"
                   and x = "self_x self" and y = "self_y self" and l_s = "self_l_s self"
                   and h_s = "self_h_s self"]
  define t where "t = (\<lambda>i j. (?L / sqrt ((linspace_points 0 (self_l_r self) ?N ! b
                               - (linspace_points 0 (self_l_s self) ?N ! i + self_x self))\<^sup>2
                          + (linspace_points 0 (self_h_r self) ?N ! a
                               - (linspace_points 0 (self_h_s self) ?N ! j + self_y self))\<^sup>2
                          + ?L\<^sup>2))\<^sup>2 / ?L\<^sup>2)"
  have tm: "q / (pi * (real_of_int ?N)\<^sup>2)
               * (?L / sqrt ((linspace_points 0 (self_l_r self) ?N ! b
                               - (linspace_points 0 (self_l_s self) ?N ! i + self_x self))\<^sup>2
                          + (linspace_points 0 (self_h_r self) ?N ! a
                               - (linspace_points 0 (self_h_s self) ?N ! j + self_y self))\<^sup>2
                          + ?L\<^sup>2))\<^sup>2 / ?L\<^sup>2
              = q * (t i j / (pi * (real_of_int ?N)\<^sup>2))" for q i j
    by (simp add: t_def)
  obtain F where F: "calculate_irradiance_vectorized (self_p self) (self_l_r self)
              (self_h_r self) (self_x self) (self_y self) ?L (self_l_s self) (self_h_s self)
              ?N = Inr F"
    and Fab: "F ! a ! b
        = Some ((\<Sum>i<nat ?N. \<Sum>j<nat ?N. self_p self * (t i j / (pi * (real_of_int ?N)\<^sup>2))) / 0.005)"
    using cell [of "self_p self"] unfolding tm by blast
  obtain F2 where F2: "calculate_irradiance_vectorized (2 * self_p self) (self_l_r self)
              (self_h_r self) (self_x self) (self_y self) ?L (self_l_s self) (self_h_s self)
              ?N = Inr F2"
    and F2ab: "F2 ! a ! b
        = Some ((\<Sum>i<nat ?N. \<Sum>j<nat ?N. 2 * self_p self * (t i j / (pi * (real_of_int ?N)\<^sup>2))) / 0.005)"
    using cell [of "2 * self_p self"] unfolding tm by blast
  have "(\<Sum>i<nat ?N. \<Sum>j<nat ?N. 2 * self_p self * (t i j / (pi * (real_of_int ?N)\<^sup>2))) / 0.005
        = 2 * ((\<Sum>i<nat ?N. \<Sum>j<nat ?N. self_p self * (t i j / (pi * (real_of_int ?N)\<^sup>2))) / 0.005)"
    unfolding sum2_double by simp
  with F F2 Fab F2ab
  show "\<exists>F F2 v.
            calculate_irradiance_vectorized (self_p self) (self_l_r self) (self_h_r self)
              (self_x self) (self_y self) ?L (self_l_s self) (self_h_s self) ?N = Inr F
          \<and> calculate_irradiance_vectorized (2 * self_p self) (self_l_r self) (self_h_r self)
              (self_x self) (self_y self) ?L (self_l_s self) (self_h_s self) ?N = Inr F2
          \<and> F ! a ! b = Some v \<and> F2 ! a ! b = Some (2 * v)"
    by (metis (no_types))
next
  let ?N = "self_accuracy self" and ?L = "self_R self"
  let ?k = "source_points_factor ?N"
  let ?self2 = "self\<lparr>self_p := 2 * self_p self\<rparr>"
  let ?c = "if ?L < max (self_l_s self) (self_h_s self) * 10
            then 1 + 0.1 * (max (self_l_s self) (self_h_s self) / ?L) else 1"
  have N: "0 < ?N" "0 \<le> ?N" and L: "?L \<noteq> 0"
    using assms(1,2) by simp_all
  define t where "t = (\<lambda>i j. (?L / sqrt
                        ((linspace_points 0 (self_l_r self) ?N ! b
                            - (linspace_points (- self_l_s self / 2) (self_l_s self / 2) ?k ! i
                               + self_x self))\<^sup>2
                       + (linspace_points 0 (self_h_r self) ?N ! a
                            - (linspace_points (- self_h_s self / 2) (self_h_s self / 2) ?k ! j
                               + self_y self))\<^sup>2
                       + ?L\<^sup>2))\<^sup>2
                   / ((linspace_points 0 (self_l_r self) ?N ! b
                            - (linspace_points (- self_l_s self / 2) (self_l_s self / 2) ?k ! i
                               + self_x self))\<^sup>2
                       + (linspace_points 0 (self_h_r self) ?N ! a
                            - (linspace_points (- self_h_s self / 2) (self_h_s self / 2) ?k ! j
                               + self_y self))\<^sup>2
                       + ?L\<^sup>2))"
  have tm: "q / (real (nat ?k) * real (nat ?k)) / pi
                   * (?L / sqrt
                        ((linspace_points 0 (self_l_r self) ?N ! b
                            - (linspace_points (- self_l_s self / 2) (self_l_s self / 2) ?k ! i
                               + self_x self))\<^sup>2
                       + (linspace_points 0 (self_h_r self) ?N ! a
                            - (linspace_points (- self_h_s self / 2) (self_h_s self / 2) ?k ! j
                               + self_y self))\<^sup>2
                       + ?L\<^sup>2))\<^sup>2
                   / ((linspace_points 0 (self_l_r self) ?N ! b
                            - (linspace_points (- self_l_s self / 2) (self_l_s self / 2) ?k ! i
                               + self_x self))\<^sup>2
                       + (linspace_points 0 (self_h_r self) ?N ! a
                            - (linspace_points (- self_h_s self / 2) (self_h_s self / 2) ?k ! j
                               + self_y self))\<^sup>2
                       + ?L\<^sup>2)
              = q * (t i j / (real (nat ?k) * real (nat ?k) * pi))" for q i j
    by (simp add: t_def)
  obtain F where F: "calculate_irradiance_extended_model self = Inr F"
    and Fab: "F ! a ! b
        = Some ((\<Sum>i<nat ?k. \<Sum>j<nat ?k. self_p self * (t i j / (real (nat ?k) * real (nat ?k) * pi))) * ?c)"
    using calculate_irradiance_extended_model_cell [OF N(2) L assms(3,4)]
    unfolding tm by blast
  have flds: "self_p ?self2 = 2 * self_p self" "self_l_r ?self2 = self_l_r self"
    "self_h_r ?self2 = self_h_r self" "self_x ?self2 = self_x self"
    "self_y ?self2 = self_y self" "self_R ?self2 = self_R self"
    "self_l_s ?self2 = self_l_s self" "self_h_s ?self2 = self_h_s self"
    "self_accuracy ?self2 = self_accuracy self"
    by simp_all
  note cell2 = calculate_irradiance_extended_model_cell
                 [of ?self2 a b, unfolded flds, OF N(2) L assms(3,4), unfolded tm]
  obtain F2 where F2: "calculate_irradiance_extended_model ?self2 = Inr F2"
    and F2ab: "F2 ! a ! b
        = Some ((\<Sum>i<nat ?k. \<Sum>j<nat ?k. 2 * self_p self * (t i j / (real (nat ?k) * real (nat ?k) * pi))) * ?c)"
    using cell2 by blast
  have "(\<Sum>i<nat ?k. \<Sum>j<nat ?k. 2 * self_p self * (t i j / (real (nat ?k) * real (nat ?k) * pi))) * ?c
        = 2 * ((\<Sum>i<nat ?k. \<Sum>j<nat ?k. self_p self * (t i j / (real (nat ?k) * real (nat ?k) * pi))) * ?c)"
    unfolding sum2_double by simp
  with F F2 Fab F2ab
  show "\<exists>F F2 v.
            calculate_irradiance_extended_model self = Inr F
          \<and> calculate_irradiance_extended_model ?self2 = Inr F2
          \<and> F ! a ! b = Some v \<and> F2 ! a ! b = Some (2 * v)"
    by (metis (no_types))
qed

theorem field_doubles_with_power_witness:
  "(0::real) < 1 \<and> (2::int) \<le> 2 \<and> (0::nat) < nat 2 \<and> (1::nat) < nat 2
   \<and> (\<exists>F F2 v.
          calculate_irradiance_vectorized 1 1 1 0 0 1 1 1 2 = Inr F
        \<and> calculate_irradiance_vectorized 2 1 1 0 0 1 1 1 2 = Inr F2
        \<and> F ! 0 ! 1 = Some v \<and> F2 ! 0 ! 1 = Some (2 * v))
   \<and> (\<exists>F F2 v.
          calculate_irradiance_extended_model
            \<lparr>self_p = 1, self_l_r = 1, self_h_r = 1, self_x = 0, self_y = 0, self_R = 1,
             self_l_s = 1, self_h_s = 1, self_accuracy = 2\<rparr> = Inr F
        \<and> calculate_irradiance_extended_model
            \<lparr>self_p = 2, self_l_r = 1, self_h_r = 1, self_x = 0, self_y = 0, self_R = 1,
             self_l_s = 1, self_h_s = 1, self_accuracy = 2\<rparr> = Inr F2
        \<and> F ! 0 ! 1 = Some v \<and> F2 ! 0 ! 1 = Some (2 * v))"
  using field_doubles_with_power
          [of "\<lparr>self_p = 1, self_l_r = 1, self_h_r = 1, self_x = 0, self_y = 0, self_R = 1,
               self_l_s = 1, self_h_s = 1, self_accuracy = 2\<rparr>" 0 1]
  by simp

section \<open>The extended model: correction and source sampling\<close>

text \<open>
  C6. In the extended model of \<open>incupsulation.py\<close>, for a valid input (\<open>L > 0\<close>,
  \<open>N \<ge> 2\<close>), with \<open>A\<close> the field accumulated by \<open>calculate_irradiance_optimized\<close>: if
  \<open>L < 10 * max(l_s, h_s)\<close> the result is \<open>A\<close> with every cell multiplied by
  \<open>1 + 0.1 * max(l_s, h_s) / L\<close>, and otherwise the result is \<open>A\<close> itself.
\<close>

theorem small_distance_correction:
  assumes "0 < self_R self" "2 \<le> self_accuracy self"
  shows "let A = calculate_irradiance_optimized
                  (fst (meshgrid (linspace_points 0 (self_l_r self) (self_accuracy self))
                                 (linspace_points 0 (self_h_r self) (self_accuracy self))))
                  (snd (meshgrid (linspace_points 0 (self_l_r self) (self_accuracy self))
                                 (linspace_points 0 (self_h_r self) (self_accuracy self))))
                  (map (\<lambda>v. v + self_x self)
                     (linspace_points (- self_l_s self / 2) (self_l_s self / 2)
                        (source_points_factor (self_accuracy self))))
                  (map (\<lambda>v. v + self_y self)
                     (linspace_points (- self_h_s self / 2) (self_h_s self / 2)
                        (source_points_factor (self_accuracy self))))
                  (self_R self)
                  (self_p self / (real (nat (source_points_factor (self_accuracy self)))
                                   * real (nat (source_points_factor (self_accuracy self)))) / pi)
         in (self_R self < 10 * max (self_l_s self) (self_h_s self) \<longrightarrow>
               (\<exists>F. calculate_irradiance_extended_model self = Inr F
                  \<and> has_shape (nat (self_accuracy self)) (nat (self_accuracy self)) F
                  \<and> (\<forall>a<nat (self_accuracy self). \<forall>b<nat (self_accuracy self).
                       \<exists>v. A ! a ! b = Some v
                         \<and> F ! a ! b
                             = Some (v * (1 + 0.1 * max (self_l_s self) (self_h_s self)
                                                / self_R self)))))
          \<and> (10 * max (self_l_s self) (self_h_s self) \<le> self_R self \<longrightarrow>
               calculate_irradiance_extended_model self = Inr A)"
proof -
  let ?N = "self_accuracy self" and ?L = "self_R self"
  let ?m = "max (self_l_s self) (self_h_s self)"
  define A where "A = calculate_irradiance_optimized
                  (fst (meshgrid (linspace_points 0 (self_l_r self) (self_accuracy self))
                                 (linspace_points 0 (self_h_r self) (self_accuracy self))))
                  (snd (meshgrid (linspace_points 0 (self_l_r self) (self_accuracy self))
                                 (linspace_points 0 (self_h_r self) (self_accuracy self))))
                  (map (\<lambda>v. v + self_x self)
                     (linspace_points (- self_l_s self / 2) (self_l_s self / 2)
                        (source_points_factor (self_accuracy self))))
                  (map (\<lambda>v. v + self_y self)
                     (linspace_points (- self_h_s self / 2) (self_h_s self / 2)
                        (source_points_factor (self_accuracy self))))
                  (self_R self)
                  (self_p self / (real (nat (source_points_factor (self_accuracy self)))
                                   * real (nat (source_points_factor (self_accuracy self)))) / pi)"
  have N: "0 \<le> ?N" and L: "?L \<noteq> 0" using assms by simp_all
  have ext: "calculate_irradiance_extended_model self
               = Inr (if ?L < ?m * 10
                      then arr_map (\<lambda>v. np_multiply v (Some (1 + 0.1 * (?m / ?L)))) A else A)"
    unfolding calculate_irradiance_extended_model_unfold [OF N L] Let_def A_def ..
  have shA: "has_shape (nat ?N) (nat ?N) A"
    unfolding A_def using meshgrid_shape_points [OF N]
    by (rule calculate_irradiance_optimized_shape)
  have cells: "\<exists>v. A ! a ! b = Some v
                 \<and> arr_map (\<lambda>v. np_multiply v (Some (1 + 0.1 * (?m / ?L)))) A ! a ! b
                     = Some (v * (1 + 0.1 * ?m / ?L))"
    if ab: "a < nat ?N" "b < nat ?N" for a b
  proof -
    obtain v where v: "A ! a ! b = Some v"
      unfolding A_def
      using calculate_irradiance_optimized_cell [OF meshgrid_shape_points [OF N] ab L]
      by blast
    have "arr_map (\<lambda>v. np_multiply v (Some (1 + 0.1 * (?m / ?L)))) A ! a ! b
            = np_multiply (A ! a ! b) (Some (1 + 0.1 * (?m / ?L)))"
      using shA ab by (rule arr_map_nth)
    also have "\<dots> = Some (v * (1 + 0.1 * ?m / ?L))"
      by (simp add: v np_multiply_def)
    finally show ?thesis using v by blast
  qed
  have "(?L < 10 * ?m \<longrightarrow>
               (\<exists>F. calculate_irradiance_extended_model self = Inr F
                  \<and> has_shape (nat ?N) (nat ?N) F
                  \<and> (\<forall>a<nat ?N. \<forall>b<nat ?N.
                       \<exists>v. A ! a ! b = Some v
                         \<and> F ! a ! b = Some (v * (1 + 0.1 * ?m / ?L)))))
          \<and> (10 * ?m \<le> ?L \<longrightarrow> calculate_irradiance_extended_model self = Inr A)"
  proof (intro conjI impI)
    assume c: "?L < 10 * ?m"
    then have "calculate_irradiance_extended_model self
                 = Inr (arr_map (\<lambda>v. np_multiply v (Some (1 + 0.1 * (?m / ?L)))) A)"
      unfolding ext by (simp add: mult.commute)
    moreover have "has_shape (nat ?N) (nat ?N)
                     (arr_map (\<lambda>v. np_multiply v (Some (1 + 0.1 * (?m / ?L)))) A)"
      using shA by (rule has_shape_arr_map)
    ultimately show "\<exists>F. calculate_irradiance_extended_model self = Inr F
                  \<and> has_shape (nat ?N) (nat ?N) F
                  \<and> (\<forall>a<nat ?N. \<forall>b<nat ?N.
                       \<exists>v. A ! a ! b = Some v
                         \<and> F ! a ! b = Some (v * (1 + 0.1 * ?m / ?L)))"
      using cells by blast
  next
    assume "10 * ?m \<le> ?L"
    then show "calculate_irradiance_extended_model self = Inr A"
      unfolding ext by (simp add: mult.commute)
  qed
  then show ?thesis
    unfolding Let_def A_def .
qed

theorem small_distance_correction_witness:
  "(0::real) < 1 \<and> (2::int) \<le> 2
   \<and> (\<exists>F. calculate_irradiance_extended_model
             \<lparr>self_p = 1, self_l_r = 1, self_h_r = 1, self_x = 0, self_y = 0, self_R = 1,
              self_l_s = 1, self_h_s = 1, self_accuracy = 2\<rparr> = Inr F \<and> has_shape 2 2 F)
   \<and> (\<exists>F. calculate_irradiance_extended_model
             \<lparr>self_p = 1, self_l_r = 1, self_h_r = 1, self_x = 0, self_y = 0, self_R = 20,
              self_l_s = 1, self_h_s = 2, self_accuracy = 2\<rparr> = Inr F)"
  using small_distance_correction
          [of "\<lparr>self_p = 1, self_l_r = 1, self_h_r = 1, self_x = 0, self_y = 0, self_R = 1,
               self_l_s = 1, self_h_s = 1, self_accuracy = 2\<rparr>"]
        small_distance_correction
          [of "\<lparr>self_p = 1, self_l_r = 1, self_h_r = 1, self_x = 0, self_y = 0, self_R = 20,
               self_l_s = 1, self_h_s = 2, self_accuracy = 2\<rparr>"]
  by (auto simp: Let_def)

text \<open>
  C7. In the extended model of \<open>incupsulation.py\<close>, with accuracy \<open>N\<close> the source is
  sampled at \<open>k = max(2, min(10, N // 10))\<close> points per axis; each cell is the sum over the
  \<open>k * k\<close> source points of the contribution with intensity \<open>I_i = power_per_point / \<pi>\<close>,
  \<open>power_per_point = P / (k * k)\<close> (times the small-distance factor).
\<close>

theorem adaptive_source_sampling:
  assumes "0 < self_R self" "2 \<le> self_accuracy self"
    and "a < nat (self_accuracy self)" "b < nat (self_accuracy self)"
  shows "let k = max 2 (min 10 (self_accuracy self div 10));
             x_s = linspace_points (- self_l_s self / 2) (self_l_s self / 2) k;
             y_s = linspace_points (- self_h_s self / 2) (self_h_s self / 2) k;
             power_per_point = self_p self / (real (nat k) * real (nat k));
             I_i = power_per_point / pi
         in length x_s = nat k \<and> length y_s = nat k
          \<and> (\<exists>F. calculate_irradiance_extended_model self = Inr F
               \<and> F ! a ! b = Some
                 ((\<Sum>i<nat k. \<Sum>j<nat k.
                     I_i * (self_R self / sqrt
                        ((linspace_points 0 (self_l_r self) (self_accuracy self) ! b
                            - (x_s ! i + self_x self))\<^sup>2
                       + (linspace_points 0 (self_h_r self) (self_accuracy self) ! a
                            - (y_s ! j + self_y self))\<^sup>2
                       + (self_R self)\<^sup>2))\<^sup>2
                     / ((linspace_points 0 (self_l_r self) (self_accuracy self) ! b
                            - (x_s ! i + self_x self))\<^sup>2
                       + (linspace_points 0 (self_h_r self) (self_accuracy self) ! a
                            - (y_s ! j + self_y self))\<^sup>2
                       + (self_R self)\<^sup>2))
                  * (if self_R self < max (self_l_s self) (self_h_s self) * 10
                     then 1 + 0.1 * (max (self_l_s self) (self_h_s self) / self_R self)
                     else 1)))"
proof -
  have N: "0 \<le> self_accuracy self" and L: "self_R self \<noteq> 0" using assms by simp_all
  show ?thesis
    unfolding Let_def source_points_factor_def [symmetric] linspace_points_length
    using calculate_irradiance_extended_model_cell [OF N L assms(3,4)]
    by blast
qed

theorem adaptive_source_sampling_witness:
  "(0::real) < 1 \<and> (2::int) \<le> 35 \<and> (0::nat) < nat 35
   \<and> length (linspace_points (- 1 / 2) (1 / 2) (max 2 (min 10 (35 div 10)))) = 3
   \<and> (\<exists>F. calculate_irradiance_extended_model
             \<lparr>self_p = 1, self_l_r = 1, self_h_r = 1, self_x = 0, self_y = 0, self_R = 1,
              self_l_s = 1, self_h_s = 1, self_accuracy = 35\<rparr> = Inr F)"
  using adaptive_source_sampling
          [of "\<lparr>self_p = 1, self_l_r = 1, self_h_r = 1, self_x = 0, self_y = 0, self_R = 1,
               self_l_s = 1, self_h_s = 1, self_accuracy = 35\<rparr>" 0 0]
  by (auto simp: Let_def)

end
